theory Spec2Isabelle
  imports
    Complex_Main
    "HOL-Library.Char_ord"
    "HOL-Library.List_Lexorder"
    "HOL-Library.Product_Lexorder"
    "HOL-Library.Log_Nat"
begin

section \<open>Python built-ins used by \<^verbatim>\<open>recipe_finder.py\<close>\<close>

text \<open>
  A Python \<^verbatim>\<open>str\<close> is a sequence of code points. The model is a \<^typ>\<open>string\<close>, whose
  characters are the code points below 256 (Latin-1): \<^term>\<open>of_char c\<close> is the code point.
  Within that range \<^verbatim>\<open>str.lower\<close> maps one character to one character, and the
  comparison of two strings is the lexicographic order on code points, which is the order
  of \<open>HOL-Library.List_Lexorder\<close> over \<open>HOL-Library.Char_ord\<close>.
\<close>

datatype py_error = ZeroDivisionError | EOFError

definition isspace :: "char \<Rightarrow> bool" where
  \<comment> \<open>\<^verbatim>\<open>str.isspace\<close> on one code point below 256\<close>
  "isspace c = (of_char c \<in> {9, 10, 11, 12, 13, 28, 29, 30, 31, 32, 133, 160 :: nat})"

definition lower_char :: "char \<Rightarrow> char" where
  \<comment> \<open>\<^verbatim>\<open>str.lower\<close> on one code point below 256: A-Z, and U+00C0-U+00DE without U+00D7\<close>
  "lower_char c =
     (let n = of_char c :: nat
      in if (65 \<le> n \<and> n \<le> 90) \<or> (192 \<le> n \<and> n \<le> 222 \<and> n \<noteq> 215)
         then char_of (n + 32) else c)"

definition lower :: "string \<Rightarrow> string" where
  "lower s = map lower_char s"

definition strip :: "string \<Rightarrow> string" where
  \<comment> \<open>\<^verbatim>\<open>str.strip()\<close>: leading and trailing whitespace removed\<close>
  "strip s = rev (dropWhile isspace (rev (dropWhile isspace s)))"

fun split_comma :: "string \<Rightarrow> string list" where
  \<comment> \<open>\<^verbatim>\<open>str.split(",")\<close>: one piece more than there are commas; the last case of the
      \<open>case\<close> is never reached, the result is never empty\<close>
  "split_comma [] = [[]]"
| "split_comma (c # cs) =
     (if c = CHR '','' then [] # split_comma cs
      else (case split_comma cs of p # ps \<Rightarrow> (c # p) # ps | [] \<Rightarrow> [[c]]))"

fun join :: "string \<Rightarrow> string list \<Rightarrow> string" where
  \<comment> \<open>\<^verbatim>\<open>sep.join(xs)\<close>\<close>
  "join sep [] = []"
| "join sep [x] = x"
| "join sep (x # y # ys) = x @ sep @ join sep (y # ys)"

fun digits :: "nat \<Rightarrow> string" where
  "digits n =
     (if n < 10 then [char_of (48 + n)]
      else digits (n div 10) @ [char_of (48 + n mod 10)])"

declare digits.simps [simp del]

definition print :: "string \<Rightarrow> string" where
  \<comment> \<open>what \<^verbatim>\<open>print(s)\<close> writes to standard output: the text and a newline\<close>
  "print s = s @ [CHR 0x0A]"

definition str_int :: "int \<Rightarrow> string" where
  \<comment> \<open>\<^verbatim>\<open>str(n)\<close> for an \<^verbatim>\<open>int\<close>, as an f-string formats it\<close>
  "str_int n = (if n < 0 then CHR ''-'' # digits (nat (- n)) else digits (nat n))"

subsection \<open>Floats\<close>

text \<open>
  A finite Python \<^verbatim>\<open>float\<close> is an IEEE 754 double; the model is its exact value, a
  rational number. Each operation computes the exact result and rounds it to the nearest
  number with a 53-bit significand, ties to even (\<open>to_double\<close>). The exponent range is
  not bounded: the values of this program lie in \<open>[0, 100]\<close>, and a quotient
  \<open>1 / total\<close> is a normal double for every list shorter than \<open>2 ^ 1021\<close>.
\<close>

definition pow2 :: "int \<Rightarrow> rat" where
  "pow2 e = (if 0 \<le> e then 2 ^ nat e else 1 / 2 ^ nat (- e))"

definition ilog2 :: "rat \<Rightarrow> int" where
  \<comment> \<open>\<open>\<lfloor>log\<^sub>2 q\<rfloor>\<close> for \<open>q > 0\<close>, from the bit lengths of numerator and denominator\<close>
  "ilog2 q =
     (case quotient_of q of (a, b) \<Rightarrow>
        let d = bitlen a - bitlen b in if pow2 d \<le> q then d else d - 1)"

definition round_half_even :: "rat \<Rightarrow> int" where
  "round_half_even q =
     (let f = \<lfloor>q\<rfloor>; d = q - of_int f
      in if d < 1 / 2 then f else if 1 / 2 < d then f + 1
         else if even f then f else f + 1)"

definition to_double :: "rat \<Rightarrow> rat" where
  "to_double x =
     (if x = 0 then 0
      else let e = ilog2 \<bar>x\<bar> - 52 in of_int (round_half_even (x / pow2 e)) * pow2 e)"

definition truediv :: "int \<Rightarrow> int \<Rightarrow> py_error + rat" where
  \<comment> \<open>\<^verbatim>\<open>a / b\<close> on two \<^verbatim>\<open>int\<close>s: the correctly rounded quotient, or ZeroDivisionError\<close>
  "truediv a b =
     (if b = 0 then Inl ZeroDivisionError else Inr (to_double (of_int a / of_int b)))"

definition fmul :: "rat \<Rightarrow> rat \<Rightarrow> rat" where
  \<comment> \<open>\<^verbatim>\<open>x * y\<close> on floats\<close>
  "fmul x y = to_double (x * y)"

definition round_ndigits :: "rat \<Rightarrow> nat \<Rightarrow> rat" where
  \<comment> \<open>\<^verbatim>\<open>round(x, n)\<close>: the exact value of \<open>x\<close> rounded half-even to \<open>n\<close> decimals, then
      the double nearest to that decimal\<close>
  "round_ndigits x n = to_double (of_int (round_half_even (x * 10 ^ n)) / 10 ^ n)"

definition py_int :: "rat \<Rightarrow> int" where
  \<comment> \<open>\<^verbatim>\<open>int(x)\<close> on a float: truncation towards zero\<close>
  "py_int x = (if 0 \<le> x then \<lfloor>x\<rfloor> else \<lceil>x\<rceil>)"

section \<open>The program\<close>

record recipe =
  name :: string
  ingredients :: "string list"

text \<open>
  A match-result entry is the dictionary built in \<^verbatim>\<open>find_matches\<close>: the recipe's
  \<^verbatim>\<open>name\<close> and \<^verbatim>\<open>ingredients\<close> and four more keys. The key \<^verbatim>\<open>total\<close> is the field
  \<open>total_n\<close>.
\<close>

record entry = recipe +
  matched :: int
  total_n :: int
  score :: rat
  missing :: int

record result =
  full_matches :: "entry list"
  partial_matches :: "entry list"

definition SAMPLE_RECIPES :: "recipe list" where
  "SAMPLE_RECIPES =
    [\<lparr>name = ''Pancakes'',
      ingredients = [''flour'', ''milk'', ''egg'', ''baking powder'', ''salt'', ''butter'']\<rparr>,
     \<lparr>name = ''Omelette'',
      ingredients = [''egg'', ''salt'', ''pepper'', ''butter'', ''onion'']\<rparr>,
     \<lparr>name = ''Tomato Pasta'',
      ingredients = [''pasta'', ''tomato'', ''garlic'', ''olive oil'', ''salt'', ''basil'']\<rparr>,
     \<lparr>name = ''Grilled Cheese'',
      ingredients = [''bread'', ''cheese'', ''butter'']\<rparr>,
     \<lparr>name = ''Veggie Salad'',
      ingredients = [''lettuce'', ''tomato'', ''cucumber'', ''olive oil'', ''salt'', ''lemon'']\<rparr>,
     \<lparr>name = ''French Toast'',
      ingredients = [''bread'', ''egg'', ''milk'', ''butter'', ''cinnamon'']\<rparr>]"

definition normalize_str :: "string \<Rightarrow> string" where
  \<comment> \<open>\<^verbatim>\<open>normalize\<close> of the source\<close>
  "normalize_str ing = lower (strip ing)"

definition parse_input :: "string \<Rightarrow> string list" where
  "parse_input arg =
     (let parts = map strip (filter (\<lambda>p. strip p \<noteq> []) (split_comma arg))
      in map normalize_str parts)"

definition score_recipe :: "string list \<Rightarrow> recipe \<Rightarrow> py_error + (rat \<times> int \<times> int)" where
  \<comment> \<open>the locals \<^verbatim>\<open>matched\<close>, \<^verbatim>\<open>total\<close>, \<^verbatim>\<open>score\<close> are primed: the plain names are the
      keys of an entry\<close>
  "score_recipe available recipe =
     (let r_ings = map normalize_str (ingredients recipe);
          available_set = set available;
          matched' = sum_list (map (\<lambda>i. 1) (filter (\<lambda>i. i \<in> available_set) r_ings));
          total' = int (length r_ings)
      in case (if total' \<noteq> 0 then truediv matched' total' else Inr 0) of
           Inl err \<Rightarrow> Inl err
         | Inr score' \<Rightarrow> Inr (score', matched', total'))"

definition sort_key_of :: "entry \<Rightarrow> rat \<times> int \<times> string" where
  \<comment> \<open>\<^verbatim>\<open>lambda x: (-x["score"], -x["matched"], x["name"])\<close>\<close>
  "sort_key_of x = (- score x, - matched x, name x)"

fun find_loop ::
  "string list \<Rightarrow> recipe list \<Rightarrow> entry list \<Rightarrow> entry list \<Rightarrow> py_error + (entry list \<times> entry list)"
where
  \<comment> \<open>the \<^verbatim>\<open>for r in recipes\<close> loop, with the lists \<^verbatim>\<open>full\<close> and \<^verbatim>\<open>partial\<close> it appends to\<close>
  "find_loop available [] full partial = Inr (full, partial)"
| "find_loop available (r # rs) full partial =
     (case score_recipe available r of
        Inl err \<Rightarrow> Inl err
      | Inr (score', matched', total') \<Rightarrow>
          let entry = \<lparr>name = name r, ingredients = ingredients r, matched = matched',
                       total_n = total', score = round_ndigits score' 3,
                       missing = total' - matched'\<rparr>
          in if matched' = total' then find_loop available rs (full @ [entry]) partial
             else if matched' > 0 then find_loop available rs full (partial @ [entry])
             else find_loop available rs full partial)"

definition find_matches :: "string list \<Rightarrow> recipe list \<Rightarrow> py_error + result" where
  "find_matches available recipes =
     (case find_loop available recipes [] [] of
        Inl err \<Rightarrow> Inl err
      | Inr (full, partial) \<Rightarrow>
          Inr \<lparr>full_matches = sort_key sort_key_of full,
               partial_matches = sort_key sort_key_of partial\<rparr>)"

definition full_line :: "entry \<Rightarrow> string" where
  \<comment> \<open>the f-string of the full-matches loop\<close>
  "full_line r =
     ''- '' @ name r @ '' (matches: '' @ str_int (matched r) @ ''/'' @ str_int (total_n r) @ '')''"

definition partial_lines :: "entry \<Rightarrow> string list" where
  \<comment> \<open>the two f-strings of the partial-matches loop, with \<^verbatim>\<open>pct = int(r["score"]*100)\<close>\<close>
  "partial_lines r =
     (let pct = py_int (fmul (score r) 100)
      in [''- '' @ name r @ '': '' @ str_int pct @ ''% ('' @ str_int (matched r) @ ''/''
            @ str_int (total_n r) @ '') -- missing '' @ str_int (missing r) @ '' ingredient(s)'',
          ''    Ingredients: '' @ join '', '' (ingredients r)])"

definition pretty_print :: "result \<Rightarrow> string list" where
  \<comment> \<open>the writes to standard output, one for each \<^verbatim>\<open>print\<close>\<close>
  "pretty_print result =
     map print
       ([CHR 0x0A # ''=== Full matches (you can fully make these) ===''] @
        (if full_matches result \<noteq> [] then map full_line (full_matches result)
         else [''No full matches found.'']) @
        [CHR 0x0A # ''=== Partial matches (ranked) ===''] @
        (if partial_matches result \<noteq> [] then concat (map partial_lines (partial_matches result))
         else [''No partial matches found.'']))"

text \<open>
  A run of \<^verbatim>\<open>main\<close>: what it wrote to standard output, one element for each write, and
  the arguments of each call of \<^verbatim>\<open>find_matches\<close>. The inputs are \<^verbatim>\<open>sys.argv\<close> and the line
  that \<^verbatim>\<open>input\<close> returns, \<open>None\<close> at end of file, where \<^verbatim>\<open>input\<close> raises EOFError.
  \<open>Inr\<close> is a normal return (exit status 0), \<open>Inl\<close> an exception that nothing catches.
\<close>

record run =
  stdout :: "string list"
  matcher_calls :: "(string list \<times> recipe list) list"

definition prompt :: string where
  "prompt = ''Enter your available ingredients (comma-separated), e.g. eggs,milk,tomato:''
            @ [CHR 0x0A] @ ''> ''"

definition main :: "string list \<Rightarrow> string option \<Rightarrow> py_error + run" where
  "main argv stdin_line =
     (case (if length argv > 1 then Inr ([], parse_input (argv ! 1))
            else (case stdin_line of
                    None \<Rightarrow> Inl EOFError
                  | Some raw \<Rightarrow> Inr ([prompt], parse_input raw))) of
        Inl err \<Rightarrow> Inl err
      | Inr (out, available) \<Rightarrow>
          if available = []
          then Inr \<lparr>stdout = out @ [print ''No ingredients provided. Exiting.''],
                    matcher_calls = []\<rparr>
          else (case find_matches available SAMPLE_RECIPES of
                  Inl err \<Rightarrow> Inl err
                | Inr result \<Rightarrow>
                    Inr \<lparr>stdout = out @ [print (''Available (normalized): '' @ join '', '' available)]
                                    @ pretty_print result,
                         matcher_calls = [(available, SAMPLE_RECIPES)]\<rparr>))"

section \<open>Notions of the specification\<close>

text \<open>
  The specification speaks of the matched count, the total and the score of a recipe
  against the available ingredients. They are defined here from its words, apart from
  the code: \<open>matched_of\<close> counts the positions of the ingredient list whose normalized
  ingredient is available, \<open>total_of\<close> is the length of the list, \<open>score_of\<close> is the
  float quotient, and 0.0 for an empty list. \<open>entry_for\<close> is the entry of a recipe with
  these numbers, the score rounded to three decimals.
\<close>

definition matched_of :: "string list \<Rightarrow> recipe \<Rightarrow> int" where
  "matched_of available r =
     int (length (filter (\<lambda>i. normalize_str (ingredients r ! i) \<in> set available)
                         [0..<length (ingredients r)]))"

definition total_of :: "recipe \<Rightarrow> int" where
  "total_of r = int (length (ingredients r))"

definition score_of :: "string list \<Rightarrow> recipe \<Rightarrow> rat" where
  "score_of available r =
     (if total_of r = 0 then 0
      else to_double (of_int (matched_of available r) / of_int (total_of r)))"

definition entry_for :: "string list \<Rightarrow> recipe \<Rightarrow> entry" where
  "entry_for available r =
     \<lparr>name = name r, ingredients = ingredients r, matched = matched_of available r,
      total_n = total_of r, score = round_ndigits (score_of available r) 3,
      missing = total_of r - matched_of available r\<rparr>"

definition parse_input_spec :: "string \<Rightarrow> string list" where
  \<comment> \<open>split on the comma, trim each piece, discard the empty pieces, lower-case the rest\<close>
  "parse_input_spec arg = map lower (filter (\<lambda>p. p \<noteq> []) (map strip (split_comma arg)))"

definition listed :: "recipe \<Rightarrow> entry list \<Rightarrow> bool" where
  \<comment> \<open>the recipe has an entry in the list\<close>
  "listed r es = (\<exists>e \<in> set es. name e = name r \<and> ingredients e = ingredients r)"

definition ranked :: "entry \<Rightarrow> entry \<Rightarrow> bool" where
  \<comment> \<open>\<open>x\<close> may stand before \<open>y\<close>: higher score, then higher matched count, then the name
      that is not greater\<close>
  "ranked x y =
     (score y < score x \<or>
      (score x = score y \<and>
        (matched y < matched x \<or> (matched x = matched y \<and> name x \<le> name y))))"

definition score_exact :: "entry \<Rightarrow> bool" where
  \<comment> \<open>the score of the entry is the float quotient of its counts, 0.0 when the total is 0\<close>
  "score_exact e =
     (score e = (if total_n e = 0 then 0
                 else to_double (of_int (matched e) / of_int (total_n e))))"

definition score_rounded :: "entry \<Rightarrow> bool" where
  \<comment> \<open>the score of the entry is that quotient rounded to three decimals\<close>
  "score_rounded e =
     (score e = round_ndigits (if total_n e = 0 then 0
                               else to_double (of_int (matched e) / of_int (total_n e))) 3)"

definition exit_message :: string where
  "exit_message = ''No ingredients provided. Exiting.''"

definition early_exit :: "py_error + run \<Rightarrow> bool" where
  \<comment> \<open>the run returned, never called the matcher, and wrote the exit message and nothing
      else but the prompt\<close>
  "early_exit x =
     (case x of
        Inl err \<Rightarrow> False
      | Inr r \<Rightarrow> matcher_calls r = [] \<and>
                 (stdout r = [print exit_message] \<or> stdout r = [prompt, print exit_message]))"

section \<open>Strings\<close>

lemma isspace_lower_char: "isspace (lower_char c) = isspace c"
proof -
  have "of_char c < (256::nat)" by simp
  then show ?thesis
    unfolding isspace_def lower_char_def Let_def
    by (auto simp: mod_if)
qed

lemma lower_char_idem: "lower_char (lower_char c) = lower_char c"
proof -
  have "of_char c < (256::nat)" by simp
  then show ?thesis
    unfolding lower_char_def Let_def
    by (auto simp: mod_if)
qed

lemma last_dropWhile: "dropWhile P xs \<noteq> [] \<Longrightarrow> last (dropWhile P xs) = last xs"
  by (induction xs) (auto split: if_splits)

lemma strip_fixed:
  assumes "s = [] \<or> (\<not> isspace (hd s) \<and> \<not> isspace (last s))"
  shows "strip s = s"
proof (cases "s = []")
  case True
  then show ?thesis by (simp add: strip_def)
next
  case False
  with assms have h: "\<not> isspace (hd s)" and l: "\<not> isspace (last s)" by auto
  from False h have "dropWhile isspace s = s"
    by (simp add: dropWhile_eq_self_iff)
  moreover from False l have "dropWhile isspace (rev s) = rev s"
    by (simp add: dropWhile_eq_self_iff hd_rev)
  ultimately show ?thesis by (simp add: strip_def)
qed

lemma strip_ends:
  "strip s = [] \<or> (\<not> isspace (hd (strip s)) \<and> \<not> isspace (last (strip s)))"
proof (cases "strip s = []")
  case True
  then show ?thesis by simp
next
  case False
  define t where "t = dropWhile isspace s"
  define u where "u = dropWhile isspace (rev t)"
  have su: "strip s = rev u" by (simp add: strip_def t_def u_def)
  with False have u: "u \<noteq> []" by simp
  then have t: "t \<noteq> []" by (auto simp: u_def)
  from u have "\<not> isspace (hd u)" unfolding u_def by (rule hd_dropWhile)
  then have l: "\<not> isspace (last (strip s))" using u by (simp add: su last_rev)
  from u have "last u = last (rev t)" unfolding u_def by (rule last_dropWhile)
  also have "\<dots> = hd t" using t by (simp add: last_rev)
  finally have "hd (strip s) = hd t" using u by (simp add: su hd_rev)
  moreover from t have "\<not> isspace (hd t)" unfolding t_def by (rule hd_dropWhile)
  ultimately show ?thesis using l by simp
qed

lemma strip_idem: "strip (strip s) = strip s"
  by (rule strip_fixed) (rule strip_ends)

lemma strip_lower: "strip (lower s) = lower (strip s)"
proof -
  have c: "isspace \<circ> lower_char = isspace"
    by (simp add: fun_eq_iff isspace_lower_char)
  show ?thesis
    by (simp add: strip_def lower_def dropWhile_map rev_map c)
qed

lemma lower_idem: "lower (lower s) = lower s"
  by (simp add: lower_def lower_char_idem)

lemma normalize_idem: "normalize_str (normalize_str s) = normalize_str s"
  by (simp add: normalize_str_def strip_lower strip_idem lower_idem)

lemma normalize_strip: "normalize_str (strip s) = normalize_str s"
  by (simp add: normalize_str_def strip_idem)

lemma normalize_Nil_iff: "normalize_str s = [] \<longleftrightarrow> strip s = []"
  by (simp add: normalize_str_def lower_def)

lemma parse_input_eq:
  "parse_input arg = map normalize_str (filter (\<lambda>p. strip p \<noteq> []) (split_comma arg))"
  by (simp add: parse_input_def Let_def normalize_strip comp_def)

section \<open>Scoring and matching\<close>

lemma sum_list_ones: "sum_list (map (\<lambda>i. 1) xs) = int (length xs)"
  by (induction xs) auto

lemma length_filter_positions:
  "length (filter (\<lambda>i. P (xs ! i)) [0..<length xs]) = length (filter P xs)"
proof -
  have "filter P xs = filter P (map (nth xs) [0..<length xs])"
    by (simp add: map_nth)
  also have "\<dots> = map (nth xs) (filter (P \<circ> nth xs) [0..<length xs])"
    by (simp only: filter_map)
  finally have "length (filter P xs) = length (filter (P \<circ> nth xs) [0..<length xs])"
    by simp
  then show ?thesis by (simp add: comp_def)
qed

lemma matched_of_filter:
  "matched_of available r =
     int (length (filter (\<lambda>i. i \<in> set available) (map normalize_str (ingredients r))))"
proof -
  have "length (filter (\<lambda>i. normalize_str (ingredients r ! i) \<in> set available)
                  [0..<length (ingredients r)])
        = length (filter (\<lambda>x. normalize_str x \<in> set available) (ingredients r))"
    by (rule length_filter_positions)
  then show ?thesis by (simp add: matched_of_def filter_map comp_def)
qed

lemma matched_of_bounds: "0 \<le> matched_of available r" "matched_of available r \<le> total_of r"
  by (simp_all add: matched_of_filter total_of_def)

lemma score_recipe_eq:
  "score_recipe available r =
     Inr (score_of available r, matched_of available r, total_of r)"
  by (simp add: score_recipe_def Let_def truediv_def score_of_def matched_of_filter
      total_of_def sum_list_ones)

lemma find_loop_eq:
  "find_loop available rs full partial =
     Inr (full @ map (entry_for available)
                   (filter (\<lambda>r. matched_of available r = total_of r) rs),
          partial @ map (entry_for available)
                      (filter (\<lambda>r. matched_of available r \<noteq> total_of r
                                   \<and> 0 < matched_of available r) rs))"
  by (induction rs arbitrary: full partial)
    (simp_all add: score_recipe_eq entry_for_def Let_def)

lemma find_matches_eq:
  "find_matches available recipes =
     Inr \<lparr>full_matches = sort_key sort_key_of (map (entry_for available)
             (filter (\<lambda>r. matched_of available r = total_of r) recipes)),
          partial_matches = sort_key sort_key_of (map (entry_for available)
             (filter (\<lambda>r. matched_of available r \<noteq> total_of r
                          \<and> 0 < matched_of available r) recipes))\<rparr>"
  by (simp add: find_matches_def find_loop_eq)

lemma pow2_pos: "0 < pow2 e"
  by (simp add: pow2_def)

lemma round_half_even_nonneg: "0 \<le> q \<Longrightarrow> 0 \<le> round_half_even q"
  by (simp add: round_half_even_def Let_def)

lemma to_double_nonneg: "0 \<le> x \<Longrightarrow> 0 \<le> to_double x"
  using pow2_pos [of "ilog2 \<bar>x\<bar> - 52"]
  by (simp add: to_double_def Let_def round_half_even_nonneg)

lemma round_ndigits_nonneg: "0 \<le> x \<Longrightarrow> 0 \<le> round_ndigits x n"
  by (simp add: round_ndigits_def to_double_nonneg round_half_even_nonneg)

lemma score_of_nonneg: "0 \<le> score_of available r"
  using matched_of_bounds [of available r]
  by (simp add: score_of_def to_double_nonneg)

section \<open>Rounding to a double\<close>

text \<open>
  \<open>ilog2\<close> is the binary exponent of a positive rational. So \<open>to_double\<close> scales its
  argument to a significand in \<open>[2\<^sup>5\<^sup>2, 2\<^sup>5\<^sup>3)\<close>, rounds that to an integer, and is off by
  at most half a unit in the last place.
\<close>

lemma pow2_power_int: "pow2 e = power_int 2 e"
  by (simp add: pow2_def power_int_def power_inverse [symmetric] inverse_eq_divide power_one_over)

lemma pow2_add: "pow2 (m + n) = pow2 m * pow2 n"
  by (simp add: pow2_power_int power_int_add)

lemma pow2_mono: "m \<le> n \<Longrightarrow> pow2 m \<le> pow2 n"
  by (simp add: pow2_power_int power_int_increasing)

lemma bitlen_pow2_bounds:
  assumes "0 < a"
  shows "pow2 (bitlen a - 1) \<le> of_int a" and "of_int a < pow2 (bitlen a)"
proof -
  from assms have b: "2 ^ nat (bitlen a - 1) \<le> a" "a < 2 ^ nat (bitlen a)"
    using bitlen_bounds [of a] by simp_all
  have p: "1 \<le> bitlen a" using assms by (simp add: bitlen_alt_def)
  from b(1) have "(of_int (2 ^ nat (bitlen a - 1)) :: rat) \<le> of_int a"
    by (simp only: of_int_le_iff)
  with p show "pow2 (bitlen a - 1) \<le> of_int a" by (simp add: pow2_def)
  from b(2) have "(of_int a :: rat) < of_int (2 ^ nat (bitlen a))"
    by (simp only: of_int_less_iff)
  with p show "of_int a < pow2 (bitlen a)" by (simp add: pow2_def)
qed

lemma ilog2_bounds:
  assumes "0 < q"
  shows "pow2 (ilog2 q) \<le> q \<and> q < pow2 (ilog2 q + 1)"
proof -
  obtain a b where ab: "quotient_of q = (a, b)" by (cases "quotient_of q")
  then have b: "0 < b" and q: "q = of_int a / of_int b"
    using quotient_of_denom_pos [of q a b] quotient_of_div [of q a b] by simp_all
  with assms have a: "0 < a" by (simp add: zero_less_divide_iff)
  define d where "d = bitlen a - bitlen b"
  have bq: "0 < (of_int b :: rat)" using b by simp
  have "q * of_int b < pow2 (bitlen a)"
    using bitlen_pow2_bounds(2) [OF a] bq by (simp add: q)
  also have "\<dots> = pow2 (d + 1) * pow2 (bitlen b - 1)"
    by (simp add: pow2_add [symmetric] d_def)
  also have "\<dots> \<le> pow2 (d + 1) * of_int b"
    using bitlen_pow2_bounds(1) [OF b] pow2_pos [of "d + 1"] by simp
  finally have up: "q < pow2 (d + 1)" using bq by simp
  have "pow2 (d - 1) * of_int b < pow2 (d - 1) * pow2 (bitlen b)"
    using bitlen_pow2_bounds(2) [OF b] pow2_pos [of "d - 1"] by simp
  also have "\<dots> = pow2 (bitlen a - 1)"
    by (simp add: pow2_add [symmetric] d_def)
  also have "\<dots> \<le> q * of_int b"
    using bitlen_pow2_bounds(1) [OF a] bq by (simp add: q)
  finally have lo: "pow2 (d - 1) \<le> q" using bq by simp
  show ?thesis
  proof (cases "pow2 d \<le> q")
    case True
    with ab up show ?thesis by (simp add: ilog2_def Let_def d_def)
  next
    case False
    with ab lo show ?thesis by (simp add: ilog2_def Let_def d_def)
  qed
qed

lemma round_half_even_near: "\<bar>of_int (round_half_even q) - q\<bar> \<le> 1 / 2"
proof -
  have "of_int \<lfloor>q\<rfloor> \<le> q" "q < of_int \<lfloor>q\<rfloor> + 1" by linarith+
  then show ?thesis
    by (auto simp: round_half_even_def Let_def abs_le_iff)
qed

lemma to_double_significand:
  assumes "x \<noteq> 0"
  shows "2 ^ 52 \<le> \<bar>x\<bar> / pow2 (ilog2 \<bar>x\<bar> - 52)" and "\<bar>x\<bar> / pow2 (ilog2 \<bar>x\<bar> - 52) < 2 ^ 53"
proof -
  from assms have p: "0 < \<bar>x\<bar>" by simp
  let ?e = "ilog2 \<bar>x\<bar> - 52"
  have c: "pow2 52 = 2 ^ 52" "pow2 53 = 2 ^ 53" by (simp_all add: pow2_def)
  have "pow2 (?e + 52) = pow2 ?e * 2 ^ 52" "pow2 (?e + 53) = pow2 ?e * 2 ^ 53"
    unfolding pow2_add c by simp_all
  then have s: "pow2 (ilog2 \<bar>x\<bar>) = pow2 ?e * 2 ^ 52"
    "pow2 (ilog2 \<bar>x\<bar> + 1) = pow2 ?e * 2 ^ 53"
    by (simp_all add: algebra_simps)
  from ilog2_bounds [OF p] s pow2_pos [of ?e]
  show "2 ^ 52 \<le> \<bar>x\<bar> / pow2 ?e" and "\<bar>x\<bar> / pow2 ?e < 2 ^ 53"
    by (simp_all add: pos_le_divide_eq pos_divide_less_eq mult.commute)
qed

lemma to_double_near:
  "\<bar>to_double x - x\<bar> \<le> pow2 (ilog2 \<bar>x\<bar> - 52) / 2"
proof (cases "x = 0")
  case True
  then show ?thesis using pow2_pos [of "ilog2 \<bar>x\<bar> - 52"] by (simp add: to_double_def)
next
  case False
  let ?p = "pow2 (ilog2 \<bar>x\<bar> - 52)"
  have p: "0 < ?p" by (rule pow2_pos)
  have "to_double x - x = (of_int (round_half_even (x / ?p)) - x / ?p) * ?p"
    using False p by (simp add: to_double_def Let_def algebra_simps)
  then have "\<bar>to_double x - x\<bar> = \<bar>of_int (round_half_even (x / ?p)) - x / ?p\<bar> * ?p"
    using p by (simp add: abs_mult)
  also have "\<dots> \<le> (1 / 2) * ?p"
    using round_half_even_near [of "x / ?p"] p by (intro mult_right_mono) simp_all
  finally show ?thesis by simp
qed

section \<open>Claims about parsing\<close>

text \<open>
  Claim C10. Normalizing is idempotent: normalizing a normalized string changes nothing.
  Hence every token that \<open>parse_input\<close> returns is non-empty and is its own
  normalization.
\<close>

theorem normalize_idempotent:
  "normalize_str (normalize_str s) = normalize_str s \<and>
   (\<forall>t \<in> set (parse_input arg). t \<noteq> [] \<and> normalize_str t = t)"
proof
  show "normalize_str (normalize_str s) = normalize_str s" by (rule normalize_idem)
  show "\<forall>t \<in> set (parse_input arg). t \<noteq> [] \<and> normalize_str t = t"
    by (auto simp: parse_input_eq normalize_idem normalize_Nil_iff)
qed

theorem normalize_idempotent_witness:
  "normalize_str (normalize_str '' Eggs '') = normalize_str '' Eggs '' \<and> normalize_str '' Eggs '' = ''eggs'' \<and>
   ''milk'' \<in> set (parse_input ''Eggs, MILK ,Tomato'') \<and> normalize_str ''milk'' = ''milk''"
proof -
  have m: "''milk'' \<in> set (parse_input ''Eggs, MILK ,Tomato'')" by code_simp
  have e: "normalize_str '' Eggs '' = ''eggs''" by code_simp
  from normalize_idempotent [of "'' Eggs ''" "''Eggs, MILK ,Tomato''"] m e
  show ?thesis by blast
qed

text \<open>
  Claim C5. \<open>parse_input\<close> is the function the specification describes: the input split
  on the comma, each piece trimmed, the pieces that are empty after trimming discarded and
  the rest lower-cased, in the order of the input and with its duplicates. On
  \<^verbatim>\<open>"Eggs, MILK ,Tomato"\<close> it returns \<^verbatim>\<open>["eggs", "milk", "tomato"]\<close>.
\<close>

theorem parse_input_refines_spec:
  "parse_input arg = parse_input_spec arg \<and>
   parse_input ''Eggs, MILK ,Tomato'' = [''eggs'', ''milk'', ''tomato''] \<and>
   parse_input ''b, A,,b , a'' = [''b'', ''a'', ''b'', ''a'']"
proof -
  have "parse_input arg = parse_input_spec arg"
    by (simp add: parse_input_eq parse_input_spec_def lower_def normalize_str_def filter_map comp_def)
  moreover have "parse_input ''Eggs, MILK ,Tomato'' = [''eggs'', ''milk'', ''tomato'']"
    by code_simp
  moreover have "parse_input ''b, A,,b , a'' = [''b'', ''a'', ''b'', ''a'']"
    by code_simp
  ultimately show ?thesis by blast
qed

theorem parse_input_refines_spec_witness:
  "parse_input_spec ''Eggs, MILK ,Tomato'' = [''eggs'', ''milk'', ''tomato'']"
proof -
  from parse_input_refines_spec [of "''Eggs, MILK ,Tomato''"]
  have "parse_input ''Eggs, MILK ,Tomato'' = parse_input_spec ''Eggs, MILK ,Tomato''"
    and "parse_input ''Eggs, MILK ,Tomato'' = [''eggs'', ''milk'', ''tomato'']"
    by blast+
  then show ?thesis by simp
qed

section \<open>Claims about the matcher\<close>

lemma matched_of_cong:
  "ingredients r' = ingredients r \<Longrightarrow> matched_of available r' = matched_of available r"
  by (simp add: matched_of_def)

lemma total_of_cong: "ingredients r' = ingredients r \<Longrightarrow> total_of r' = total_of r"
  by (simp add: total_of_def)

lemma listed_full_iff:
  assumes "r \<in> set recipes" "find_matches available recipes = Inr res"
  shows "listed r (full_matches res) \<longleftrightarrow> matched_of available r = total_of r"
proof -
  from assms(2) have "set (full_matches res) =
      entry_for available ` {x \<in> set recipes. matched_of available x = total_of x}"
    by (auto simp: find_matches_eq)
  then have "listed r (full_matches res) \<longleftrightarrow>
      (\<exists>x \<in> set recipes. matched_of available x = total_of x \<and> name x = name r
          \<and> ingredients x = ingredients r)"
    by (auto simp: listed_def entry_for_def)
  also have "\<dots> \<longleftrightarrow> matched_of available r = total_of r"
    using assms(1) by (metis matched_of_cong total_of_cong)
  finally show ?thesis .
qed

lemma listed_partial_iff:
  assumes "r \<in> set recipes" "find_matches available recipes = Inr res"
  shows "listed r (partial_matches res) \<longleftrightarrow>
           0 < matched_of available r \<and> matched_of available r < total_of r"
proof -
  from assms(2) have "set (partial_matches res) =
      entry_for available ` {x \<in> set recipes. matched_of available x \<noteq> total_of x
                                \<and> 0 < matched_of available x}"
    by (auto simp: find_matches_eq)
  then have "listed r (partial_matches res) \<longleftrightarrow>
      (\<exists>x \<in> set recipes. (matched_of available x \<noteq> total_of x \<and> 0 < matched_of available x)
          \<and> name x = name r \<and> ingredients x = ingredients r)"
    by (auto simp: listed_def entry_for_def)
  also have "\<dots> \<longleftrightarrow> matched_of available r \<noteq> total_of r \<and> 0 < matched_of available r"
    using assms(1) by (metis matched_of_cong total_of_cong)
  also have "\<dots> \<longleftrightarrow> 0 < matched_of available r \<and> matched_of available r < total_of r"
    using matched_of_bounds(2) [of available r] by auto
  finally show ?thesis .
qed

text \<open>
  Claim C1. For every list of available ingredients and every recipe of the catalog,
  \<open>find_matches\<close> returns, and with \<open>matched\<close> the number of the recipe's ingredients that
  are available and \<open>total\<close> the number of its ingredients: the recipe has an entry in
  \<open>full_matches\<close> if and only if \<open>matched = total\<close> (also when \<open>total = 0\<close>), an entry in
  \<open>partial_matches\<close> if and only if \<open>0 < matched < total\<close>, an entry in neither list if and
  only if \<open>matched = 0\<close> and \<open>total > 0\<close>, and never an entry in both. These counts are the
  ones that \<open>score_recipe\<close> returns.
\<close>

theorem find_matches_classifies:
  assumes "r \<in> set recipes"
  shows "\<exists>res.
           find_matches available recipes = Inr res \<and>
           (listed r (full_matches res) \<longleftrightarrow> matched_of available r = total_of r) \<and>
           (listed r (partial_matches res) \<longleftrightarrow>
              0 < matched_of available r \<and> matched_of available r < total_of r) \<and>
           (\<not> listed r (full_matches res) \<and> \<not> listed r (partial_matches res)
              \<longleftrightarrow> matched_of available r = 0 \<and> 0 < total_of r) \<and>
           \<not> (listed r (full_matches res) \<and> listed r (partial_matches res)) \<and>
           score_recipe available r =
             Inr (score_of available r, matched_of available r, total_of r)"
proof -
  obtain res where res: "find_matches available recipes = Inr res"
    by (simp add: find_matches_eq)
  let ?m = "matched_of available r" and ?t = "total_of r"
  have f: "listed r (full_matches res) \<longleftrightarrow> ?m = ?t"
    using assms res by (rule listed_full_iff)
  have p: "listed r (partial_matches res) \<longleftrightarrow> 0 < ?m \<and> ?m < ?t"
    using assms res by (rule listed_partial_iff)
  have b: "0 \<le> ?m" "?m \<le> ?t" by (rule matched_of_bounds)+
  have n: "\<not> listed r (full_matches res) \<and> \<not> listed r (partial_matches res)
             \<longleftrightarrow> ?m = 0 \<and> 0 < ?t"
    using f p b by auto
  have d: "\<not> (listed r (full_matches res) \<and> listed r (partial_matches res))"
    using f p by auto
  show ?thesis using res score_recipe_eq [of available r] f p n d by blast
qed

theorem find_matches_classifies_witness:
  "find_matches [''egg'', ''salt'', ''pepper'', ''butter'', ''onion''] SAMPLE_RECIPES
     = Inr \<lparr>full_matches =
               [\<lparr>name = ''Omelette'',
                 ingredients = [''egg'', ''salt'', ''pepper'', ''butter'', ''onion''],
                 matched = 5, total_n = 5, score = 1, missing = 0\<rparr>],
             partial_matches =
               [\<lparr>name = ''Pancakes'',
                 ingredients = [''flour'', ''milk'', ''egg'', ''baking powder'', ''salt'',
                                ''butter''],
                 matched = 3, total_n = 6, score = to_double (5 / 10), missing = 3\<rparr>,
                \<lparr>name = ''French Toast'',
                 ingredients = [''bread'', ''egg'', ''milk'', ''butter'', ''cinnamon''],
                 matched = 2, total_n = 5, score = to_double (4 / 10), missing = 3\<rparr>,
                \<lparr>name = ''Grilled Cheese'',
                 ingredients = [''bread'', ''cheese'', ''butter''],
                 matched = 1, total_n = 3, score = to_double (333 / 1000), missing = 2\<rparr>,
                \<lparr>name = ''Tomato Pasta'',
                 ingredients = [''pasta'', ''tomato'', ''garlic'', ''olive oil'', ''salt'',
                                ''basil''],
                 matched = 1, total_n = 6, score = to_double (167 / 1000), missing = 5\<rparr>,
                \<lparr>name = ''Veggie Salad'',
                 ingredients = [''lettuce'', ''tomato'', ''cucumber'', ''olive oil'', ''salt'',
                                ''lemon''],
                 matched = 1, total_n = 6, score = to_double (167 / 1000), missing = 5\<rparr>]\<rparr> \<and>
   (\<exists>res. find_matches [''egg'', ''salt'', ''pepper'', ''butter'', ''onion''] SAMPLE_RECIPES
            = Inr res \<and>
      listed (SAMPLE_RECIPES ! 1) (full_matches res) \<and>
      \<not> listed (SAMPLE_RECIPES ! 1) (partial_matches res)) \<and>
   (\<exists>res. find_matches [''egg'', ''milk''] SAMPLE_RECIPES = Inr res \<and>
      listed (SAMPLE_RECIPES ! 0) (partial_matches res) \<and>
      \<not> listed (SAMPLE_RECIPES ! 0) (full_matches res) \<and>
      \<not> listed (SAMPLE_RECIPES ! 2) (full_matches res) \<and>
      \<not> listed (SAMPLE_RECIPES ! 2) (partial_matches res)) \<and>
   matched_of [''egg'', ''salt'', ''pepper'', ''butter'', ''onion''] (SAMPLE_RECIPES ! 1) = 5 \<and>
   total_of (SAMPLE_RECIPES ! 1) = 5 \<and>
   matched_of [''egg'', ''milk''] (SAMPLE_RECIPES ! 0) = 2 \<and>
   total_of (SAMPLE_RECIPES ! 0) = 6 \<and>
   matched_of [''egg'', ''milk''] (SAMPLE_RECIPES ! 2) = 0 \<and>
   total_of (SAMPLE_RECIPES ! 2) = 6"
proof -
  let ?all = "[''egg'', ''salt'', ''pepper'', ''butter'', ''onion'']"
  let ?two = "[''egg'', ''milk'']"
  have in0: "SAMPLE_RECIPES ! 0 \<in> set SAMPLE_RECIPES"
    and in1: "SAMPLE_RECIPES ! 1 \<in> set SAMPLE_RECIPES"
    and in2: "SAMPLE_RECIPES ! 2 \<in> set SAMPLE_RECIPES"
    by (simp_all add: SAMPLE_RECIPES_def)
  have m1: "matched_of ?all (SAMPLE_RECIPES ! 1) = 5" and t1: "total_of (SAMPLE_RECIPES ! 1) = 5"
    and m0: "matched_of ?two (SAMPLE_RECIPES ! 0) = 2" and t0: "total_of (SAMPLE_RECIPES ! 0) = 6"
    and m2: "matched_of ?two (SAMPLE_RECIPES ! 2) = 0" and t2: "total_of (SAMPLE_RECIPES ! 2) = 6"
    by code_simp+
  have run: "find_matches ?all SAMPLE_RECIPES
     = Inr \<lparr>full_matches =
               [\<lparr>name = ''Omelette'',
                 ingredients = [''egg'', ''salt'', ''pepper'', ''butter'', ''onion''],
                 matched = 5, total_n = 5, score = 1, missing = 0\<rparr>],
             partial_matches =
               [\<lparr>name = ''Pancakes'',
                 ingredients = [''flour'', ''milk'', ''egg'', ''baking powder'', ''salt'',
                                ''butter''],
                 matched = 3, total_n = 6, score = to_double (5 / 10), missing = 3\<rparr>,
                \<lparr>name = ''French Toast'',
                 ingredients = [''bread'', ''egg'', ''milk'', ''butter'', ''cinnamon''],
                 matched = 2, total_n = 5, score = to_double (4 / 10), missing = 3\<rparr>,
                \<lparr>name = ''Grilled Cheese'',
                 ingredients = [''bread'', ''cheese'', ''butter''],
                 matched = 1, total_n = 3, score = to_double (333 / 1000), missing = 2\<rparr>,
                \<lparr>name = ''Tomato Pasta'',
                 ingredients = [''pasta'', ''tomato'', ''garlic'', ''olive oil'', ''salt'',
                                ''basil''],
                 matched = 1, total_n = 6, score = to_double (167 / 1000), missing = 5\<rparr>,
                \<lparr>name = ''Veggie Salad'',
                 ingredients = [''lettuce'', ''tomato'', ''cucumber'', ''olive oil'', ''salt'',
                                ''lemon''],
                 matched = 1, total_n = 6, score = to_double (167 / 1000), missing = 5\<rparr>]\<rparr>"
    by code_simp
  have a: "\<exists>res. find_matches ?all SAMPLE_RECIPES = Inr res \<and>
      listed (SAMPLE_RECIPES ! 1) (full_matches res) \<and>
      \<not> listed (SAMPLE_RECIPES ! 1) (partial_matches res)"
    using find_matches_classifies [OF in1, of ?all] m1 t1 by auto
  obtain res where r0: "find_matches ?two SAMPLE_RECIPES = Inr res"
    and p0: "listed (SAMPLE_RECIPES ! 0) (partial_matches res)"
    and f0: "\<not> listed (SAMPLE_RECIPES ! 0) (full_matches res)"
    using find_matches_classifies [OF in0, of ?two] m0 t0 by auto
  obtain res' where r2: "find_matches ?two SAMPLE_RECIPES = Inr res'"
    and n2: "\<not> listed (SAMPLE_RECIPES ! 2) (full_matches res')"
            "\<not> listed (SAMPLE_RECIPES ! 2) (partial_matches res')"
    using find_matches_classifies [OF in2, of ?two] m2 t2 by auto
  from r0 r2 have "res' = res" by simp
  with r0 p0 f0 n2 have b: "\<exists>res. find_matches ?two SAMPLE_RECIPES = Inr res \<and>
      listed (SAMPLE_RECIPES ! 0) (partial_matches res) \<and>
      \<not> listed (SAMPLE_RECIPES ! 0) (full_matches res) \<and>
      \<not> listed (SAMPLE_RECIPES ! 2) (full_matches res) \<and>
      \<not> listed (SAMPLE_RECIPES ! 2) (partial_matches res)"
    by blast
  from run a b m1 t1 m0 t0 m2 t2 show ?thesis by blast
qed

lemma find_matches_sorted_keys:
  assumes "find_matches available recipes = Inr res"
  shows "sorted (map sort_key_of (full_matches res))"
    and "sorted (map sort_key_of (partial_matches res))"
  using assms by (auto simp: find_matches_eq)

lemma sort_key_of_le_ranked: "sort_key_of x \<le> sort_key_of y \<longleftrightarrow> ranked x y"
  by (auto simp: sort_key_of_def ranked_def less_eq_prod_def)

text \<open>
  Claim C2. Both lists that \<open>find_matches\<close> returns are sorted by the key of the source,
  \<open>(- score, - matched, name)\<close> with the rounded score: of two entries the earlier has
  the higher score, or the same score and the higher matched count, or the same score
  and matched count and a name that is not greater in the lexicographic order of the
  code points. So two entries with the same score and matched count stand in ascending
  order of their names.
\<close>

theorem find_matches_sorted:
  assumes "find_matches available recipes = Inr res"
    and "es = full_matches res \<or> es = partial_matches res"
    and "i < j" and "j < length es"
  shows "sorted (map sort_key_of es) \<and> ranked (es ! i) (es ! j) \<and>
         (score (es ! i) = score (es ! j) \<and> matched (es ! i) = matched (es ! j)
            \<longrightarrow> name (es ! i) \<le> name (es ! j))"
proof -
  from assms(1,2) have s: "sorted (map sort_key_of es)"
    using find_matches_sorted_keys by blast
  from assms(3,4) have "i \<le> j" "j < length (map sort_key_of es)" by simp_all
  with s have "map sort_key_of es ! i \<le> map sort_key_of es ! j"
    by (rule sorted_nth_mono)
  with assms(3,4) have r: "ranked (es ! i) (es ! j)"
    by (simp add: sort_key_of_le_ranked)
  then have "score (es ! i) = score (es ! j) \<and> matched (es ! i) = matched (es ! j)
            \<longrightarrow> name (es ! i) \<le> name (es ! j)"
    by (auto simp: ranked_def)
  with s r show ?thesis by blast
qed

theorem find_matches_sorted_witness:
  "find_matches [''egg''] SAMPLE_RECIPES =
     Inr \<lparr>full_matches = [],
          partial_matches =
            [\<lparr>name = ''French Toast'',
              ingredients = [''bread'', ''egg'', ''milk'', ''butter'', ''cinnamon''],
              matched = 1, total_n = 5, score = to_double (2 / 10), missing = 4\<rparr>,
             \<lparr>name = ''Omelette'',
              ingredients = [''egg'', ''salt'', ''pepper'', ''butter'', ''onion''],
              matched = 1, total_n = 5, score = to_double (2 / 10), missing = 4\<rparr>,
             \<lparr>name = ''Pancakes'',
              ingredients = [''flour'', ''milk'', ''egg'', ''baking powder'', ''salt'', ''butter''],
              matched = 1, total_n = 6, score = to_double (167 / 1000), missing = 5\<rparr>]\<rparr> \<and>
   ranked
     \<lparr>name = ''French Toast'',
       ingredients = [''bread'', ''egg'', ''milk'', ''butter'', ''cinnamon''],
       matched = 1, total_n = 5, score = to_double (2 / 10), missing = 4\<rparr>
     \<lparr>name = ''Omelette'',
       ingredients = [''egg'', ''salt'', ''pepper'', ''butter'', ''onion''],
       matched = 1, total_n = 5, score = to_double (2 / 10), missing = 4\<rparr> \<and>
   ''French Toast'' \<le> ''Omelette'' \<and> \<not> ''apple'' \<le> ''Zebra''"
proof -
  let ?ft = "\<lparr>name = ''French Toast'',
              ingredients = [''bread'', ''egg'', ''milk'', ''butter'', ''cinnamon''],
              matched = 1, total_n = 5, score = to_double (2 / 10), missing = 4\<rparr>"
  let ?om = "\<lparr>name = ''Omelette'',
              ingredients = [''egg'', ''salt'', ''pepper'', ''butter'', ''onion''],
              matched = 1, total_n = 5, score = to_double (2 / 10), missing = 4\<rparr>"
  let ?pc = "\<lparr>name = ''Pancakes'',
              ingredients = [''flour'', ''milk'', ''egg'', ''baking powder'', ''salt'', ''butter''],
              matched = 1, total_n = 6, score = to_double (167 / 1000), missing = 5\<rparr>"
  let ?res = "\<lparr>full_matches = [], partial_matches = [?ft, ?om, ?pc]\<rparr>"
  have run: "find_matches [''egg''] SAMPLE_RECIPES = Inr ?res"
    by code_simp
  have "ranked ([?ft, ?om, ?pc] ! 0) ([?ft, ?om, ?pc] ! 1) \<and>
        (score ([?ft, ?om, ?pc] ! 0) = score ([?ft, ?om, ?pc] ! 1)
           \<and> matched ([?ft, ?om, ?pc] ! 0) = matched ([?ft, ?om, ?pc] ! 1)
         \<longrightarrow> name ([?ft, ?om, ?pc] ! 0) \<le> name ([?ft, ?om, ?pc] ! 1))"
    using find_matches_sorted [OF run, of "[?ft, ?om, ?pc]" 0 1] by simp
  then have "ranked ?ft ?om" and "''French Toast'' \<le> ''Omelette''" by simp_all
  moreover have "\<not> ''apple'' \<le> ''Zebra''" by code_simp
  ultimately show ?thesis using run by blast
qed

text \<open>
  Claim C3. \<open>score_recipe\<close> returns \<open>matched\<close>, the number of positions of the recipe's
  ingredient list whose normalized ingredient is available (an ingredient listed twice
  counts twice), \<open>total\<close>, the length of the list, and \<open>score\<close>, the float quotient
  \<open>matched / total\<close> (0.0 for an empty list). With \<^verbatim>\<open>egg\<close> and \<^verbatim>\<open>milk\<close> available, Pancakes
  scores \<open>matched = 2\<close>, \<open>total = 6\<close> and the float \<open>2 / 6\<close>; its entry in
  \<open>partial_matches\<close> has the score 0.333 and \<open>missing = 4\<close>.
\<close>

theorem score_recipe_counts:
  "score_recipe available r =
     Inr (score_of available r, matched_of available r, total_of r) \<and>
   score_recipe [''egg'', ''milk'']
     \<lparr>name = ''Pancakes'',
      ingredients = [''flour'', ''milk'', ''egg'', ''baking powder'', ''salt'', ''butter'']\<rparr>
     = Inr (to_double (2 / 6), 2, 6) \<and>
   find_matches [''egg'', ''milk''] SAMPLE_RECIPES =
     Inr \<lparr>full_matches = [],
          partial_matches =
            [\<lparr>name = ''French Toast'',
              ingredients = [''bread'', ''egg'', ''milk'', ''butter'', ''cinnamon''],
              matched = 2, total_n = 5, score = to_double (4 / 10), missing = 3\<rparr>,
             \<lparr>name = ''Pancakes'',
              ingredients = [''flour'', ''milk'', ''egg'', ''baking powder'', ''salt'', ''butter''],
              matched = 2, total_n = 6, score = to_double (333 / 1000), missing = 4\<rparr>,
             \<lparr>name = ''Omelette'',
              ingredients = [''egg'', ''salt'', ''pepper'', ''butter'', ''onion''],
              matched = 1, total_n = 5, score = to_double (2 / 10), missing = 4\<rparr>]\<rparr> \<and>
   score_recipe [''egg''] \<lparr>name = ''Twice'', ingredients = [''Egg'', '' egg '', ''salt'']\<rparr>
     = Inr (to_double (2 / 3), 2, 3)"
proof -
  have "score_recipe [''egg'', ''milk'']
     \<lparr>name = ''Pancakes'',
      ingredients = [''flour'', ''milk'', ''egg'', ''baking powder'', ''salt'', ''butter'']\<rparr>
     = Inr (to_double (2 / 6), 2, 6)"
    by code_simp
  moreover have "find_matches [''egg'', ''milk''] SAMPLE_RECIPES =
     Inr \<lparr>full_matches = [],
          partial_matches =
            [\<lparr>name = ''French Toast'',
              ingredients = [''bread'', ''egg'', ''milk'', ''butter'', ''cinnamon''],
              matched = 2, total_n = 5, score = to_double (4 / 10), missing = 3\<rparr>,
             \<lparr>name = ''Pancakes'',
              ingredients = [''flour'', ''milk'', ''egg'', ''baking powder'', ''salt'', ''butter''],
              matched = 2, total_n = 6, score = to_double (333 / 1000), missing = 4\<rparr>,
             \<lparr>name = ''Omelette'',
              ingredients = [''egg'', ''salt'', ''pepper'', ''butter'', ''onion''],
              matched = 1, total_n = 5, score = to_double (2 / 10), missing = 4\<rparr>]\<rparr>"
    by code_simp
  moreover have "score_recipe [''egg'']
      \<lparr>name = ''Twice'', ingredients = [''Egg'', '' egg '', ''salt'']\<rparr>
     = Inr (to_double (2 / 3), 2, 3)"
    by code_simp
  ultimately show ?thesis using score_recipe_eq [of available r] by blast
qed

theorem score_recipe_counts_witness:
  "score_recipe [''egg'', ''milk''] (SAMPLE_RECIPES ! 1) = Inr (to_double (1 / 5), 1, 5) \<and>
   matched_of [''egg'', ''milk''] (SAMPLE_RECIPES ! 1) = 1 \<and>
   total_of (SAMPLE_RECIPES ! 1) = 5"
proof -
  have "score_recipe [''egg'', ''milk''] (SAMPLE_RECIPES ! 1) = Inr (to_double (1 / 5), 1, 5)"
    by code_simp
  with score_recipe_counts [of "[''egg'', ''milk'']" "SAMPLE_RECIPES ! 1"]
  show ?thesis by simp
qed

text \<open>
  Claim C4. \<open>score_recipe\<close> never raises. For a recipe with no ingredients it returns the
  score 0.0 with \<open>matched = 0\<close> and \<open>total = 0\<close>, and \<open>find_matches\<close> lists that recipe
  in \<open>full_matches\<close>, not in \<open>partial_matches\<close>.
\<close>

theorem empty_recipe_full_match:
  "(\<exists>x. score_recipe available r = Inr x) \<and>
   (ingredients r = [] \<longrightarrow> score_recipe available r = Inr (0, 0, 0)) \<and>
   (ingredients r = [] \<longrightarrow> r \<in> set recipes \<longrightarrow>
      (\<exists>res. find_matches available recipes = Inr res \<and>
         \<lparr>name = name r, ingredients = [], matched = 0, total_n = 0, score = 0, missing = 0\<rparr>
           \<in> set (full_matches res) \<and>
         \<not> listed r (partial_matches res)))"
proof (intro conjI impI)
  show "\<exists>x. score_recipe available r = Inr x" by (simp add: score_recipe_eq)
next
  assume "ingredients r = []"
  then show "score_recipe available r = Inr (0, 0, 0)"
    by (simp add: score_recipe_eq score_of_def matched_of_def total_of_def)
next
  assume e: "ingredients r = []" and r: "r \<in> set recipes"
  obtain res where res: "find_matches available recipes = Inr res"
    by (simp add: find_matches_eq)
  from e have m: "matched_of available r = 0" "total_of r = 0"
    by (simp_all add: matched_of_def total_of_def)
  have z: "round_ndigits 0 3 = 0"
    by (simp add: round_ndigits_def round_half_even_def to_double_def)
  from e m z have "entry_for available r =
      \<lparr>name = name r, ingredients = [], matched = 0, total_n = 0, score = 0, missing = 0\<rparr>"
    by (simp add: entry_for_def score_of_def)
  moreover from r m res have "entry_for available r \<in> set (full_matches res)"
    by (auto simp: find_matches_eq)
  moreover from r res m have "\<not> listed r (partial_matches res)"
    by (simp add: listed_partial_iff)
  ultimately show "\<exists>res. find_matches available recipes = Inr res \<and>
         \<lparr>name = name r, ingredients = [], matched = 0, total_n = 0, score = 0, missing = 0\<rparr>
           \<in> set (full_matches res) \<and>
         \<not> listed r (partial_matches res)"
    using res by auto
qed

theorem empty_recipe_full_match_witness:
  "score_recipe [''egg''] \<lparr>name = ''Water'', ingredients = []\<rparr> = Inr (0, 0, 0) \<and>
   (\<exists>res. find_matches [''egg'']
            [\<lparr>name = ''Omelette'', ingredients = [''egg'', ''salt'']\<rparr>,
             \<lparr>name = ''Water'', ingredients = []\<rparr>] = Inr res \<and>
      \<lparr>name = ''Water'', ingredients = [], matched = 0, total_n = 0, score = 0, missing = 0\<rparr>
        \<in> set (full_matches res) \<and>
      \<not> listed \<lparr>name = ''Water'', ingredients = []\<rparr> (partial_matches res))"
  using empty_recipe_full_match [of "[''egg'']" "\<lparr>name = ''Water'', ingredients = []\<rparr>"
      "[\<lparr>name = ''Omelette'', ingredients = [''egg'', ''salt'']\<rparr>,
        \<lparr>name = ''Water'', ingredients = []\<rparr>]"]
  by simp

lemma matched_of_set:
  "set available = set available' \<Longrightarrow> matched_of available r = matched_of available' r"
  by (simp add: matched_of_def)

lemma entry_for_set:
  assumes "set available = set available'"
  shows "entry_for available = entry_for available'"
proof
  fix r
  from assms have "matched_of available r = matched_of available' r"
    by (rule matched_of_set)
  then show "entry_for available r = entry_for available' r"
    by (simp add: entry_for_def score_of_def)
qed

text \<open>
  Claim C9. Matching depends on the set of the available ingredients only: two lists with
  the same elements, in any order and with any repetitions, give the same result of
  \<open>score_recipe\<close> for every recipe and the same result of \<open>find_matches\<close>.
\<close>

theorem available_set_semantics:
  assumes "set available = set available'"
  shows "score_recipe available r = score_recipe available' r \<and>
         find_matches available recipes = find_matches available' recipes"
proof
  from assms have m: "\<And>x. matched_of available x = matched_of available' x"
    by (rule matched_of_set)
  then show "score_recipe available r = score_recipe available' r"
    by (simp add: score_recipe_eq score_of_def)
  from assms have e: "entry_for available = entry_for available'"
    by (rule entry_for_set)
  show "find_matches available recipes = find_matches available' recipes"
    unfolding find_matches_eq e m ..
qed

theorem available_set_semantics_witness:
  "set [''egg'', ''milk''] = set [''milk'', ''egg'', ''egg''] \<and>
   score_recipe [''egg'', ''milk''] (SAMPLE_RECIPES ! 0)
     = score_recipe [''milk'', ''egg'', ''egg''] (SAMPLE_RECIPES ! 0) \<and>
   find_matches [''egg'', ''milk''] SAMPLE_RECIPES
     = find_matches [''milk'', ''egg'', ''egg''] SAMPLE_RECIPES"
proof -
  have h: "set [''egg'', ''milk''] = set [''milk'', ''egg'', ''egg'']" by auto
  from available_set_semantics [OF h, of "SAMPLE_RECIPES ! 0" SAMPLE_RECIPES] h
  show ?thesis by blast
qed

lemma find_matches_entries:
  assumes "find_matches available recipes = Inr res"
    and "e \<in> set (full_matches res) \<union> set (partial_matches res)"
  shows "\<exists>r \<in> set recipes. e = entry_for available r"
  using assms by (auto simp: find_matches_eq)

lemma round_ndigits_zero: "round_ndigits 0 n = 0"
  by (simp add: round_ndigits_def round_half_even_def to_double_def)

text \<open>
  Claim C7, as it is stated: every entry that \<open>find_matches\<close> returns has
  \<open>0 \<le> matched \<le> total\<close> and a score equal to \<open>matched / total\<close>. The second part fails:
  the entry holds the score rounded to three decimals. With \<^verbatim>\<open>egg\<close> and \<^verbatim>\<open>milk\<close>
  available, the entry of Pancakes has \<open>matched = 2\<close>, \<open>total = 6\<close> and the score 0.333,
  which is neither the float \<open>2 / 6\<close> nor the fraction.
\<close>

theorem entry_score_not_exact:
  "find_matches [''egg'', ''milk''] SAMPLE_RECIPES =
     Inr \<lparr>full_matches = [],
          partial_matches =
            [\<lparr>name = ''French Toast'',
              ingredients = [''bread'', ''egg'', ''milk'', ''butter'', ''cinnamon''],
              matched = 2, total_n = 5, score = 3602879701896397 / 9007199254740992,
              missing = 3\<rparr>,
             \<lparr>name = ''Pancakes'',
              ingredients = [''flour'', ''milk'', ''egg'', ''baking powder'', ''salt'', ''butter''],
              matched = 2, total_n = 6, score = 5998794703657501 / 18014398509481984,
              missing = 4\<rparr>,
             \<lparr>name = ''Omelette'',
              ingredients = [''egg'', ''salt'', ''pepper'', ''butter'', ''onion''],
              matched = 1, total_n = 5, score = 3602879701896397 / 18014398509481984,
              missing = 4\<rparr>]\<rparr> \<and>
   \<not> score_exact
       \<lparr>name = ''Pancakes'',
        ingredients = [''flour'', ''milk'', ''egg'', ''baking powder'', ''salt'', ''butter''],
        matched = 2, total_n = 6, score = 5998794703657501 / 18014398509481984,
        missing = 4\<rparr> \<and>
   to_double (2 / 6) = 6004799503160661 / 18014398509481984 \<and>
   (5998794703657501 / 18014398509481984 :: rat) \<noteq> 2 / 6"
proof -
  have "find_matches [''egg'', ''milk''] SAMPLE_RECIPES =
     Inr \<lparr>full_matches = [],
          partial_matches =
            [\<lparr>name = ''French Toast'',
              ingredients = [''bread'', ''egg'', ''milk'', ''butter'', ''cinnamon''],
              matched = 2, total_n = 5, score = 3602879701896397 / 9007199254740992,
              missing = 3\<rparr>,
             \<lparr>name = ''Pancakes'',
              ingredients = [''flour'', ''milk'', ''egg'', ''baking powder'', ''salt'', ''butter''],
              matched = 2, total_n = 6, score = 5998794703657501 / 18014398509481984,
              missing = 4\<rparr>,
             \<lparr>name = ''Omelette'',
              ingredients = [''egg'', ''salt'', ''pepper'', ''butter'', ''onion''],
              matched = 1, total_n = 5, score = 3602879701896397 / 18014398509481984,
              missing = 4\<rparr>]\<rparr>"
    by code_simp
  moreover have d: "to_double (2 / 6) = 6004799503160661 / 18014398509481984"
    by code_simp
  moreover have "\<not> score_exact
       \<lparr>name = ''Pancakes'',
        ingredients = [''flour'', ''milk'', ''egg'', ''baking powder'', ''salt'', ''butter''],
        matched = 2, total_n = 6, score = 5998794703657501 / 18014398509481984,
        missing = 4\<rparr>"
  proof -
    have "to_double (1 / 3) = 6004799503160661 / 18014398509481984" by code_simp
    then show ?thesis by (simp add: score_exact_def)
  qed
  moreover have "(5998794703657501 / 18014398509481984 :: rat) \<noteq> 2 / 6"
    by simp
  ultimately show ?thesis by blast
qed

text \<open>
  Claim C7, amended: every entry that \<open>find_matches\<close> returns, in either list, has
  \<open>0 \<le> matched \<le> total\<close>, a score equal to \<open>matched / total\<close> rounded to three decimals
  (0.0 when \<open>total = 0\<close>), and \<open>missing = total - matched\<close>.
\<close>

theorem entry_invariant:
  assumes "find_matches available recipes = Inr res"
    and "e \<in> set (full_matches res) \<union> set (partial_matches res)"
  shows "0 \<le> matched e \<and> matched e \<le> total_n e \<and> score_rounded e \<and>
         (total_n e = 0 \<longrightarrow> score e = 0) \<and> missing e = total_n e - matched e"
proof -
  from assms obtain r where e: "e = entry_for available r"
    using find_matches_entries by blast
  have "0 \<le> matched e" "matched e \<le> total_n e"
    using matched_of_bounds [of available r] by (simp_all add: e entry_for_def)
  moreover have "score_rounded e"
    by (simp add: score_rounded_def e entry_for_def score_of_def)
  moreover have "total_n e = 0 \<longrightarrow> score e = 0"
    by (simp add: e entry_for_def score_of_def round_ndigits_zero)
  moreover have "missing e = total_n e - matched e"
    by (simp add: e entry_for_def)
  ultimately show ?thesis by blast
qed

theorem entry_invariant_witness:
  "score_rounded
     \<lparr>name = ''Pancakes'',
      ingredients = [''flour'', ''milk'', ''egg'', ''baking powder'', ''salt'', ''butter''],
      matched = 2, total_n = 6, score = 5998794703657501 / 18014398509481984,
      missing = 4\<rparr> \<and>
   round_ndigits (to_double (2 / 6)) 3 = 5998794703657501 / 18014398509481984 \<and>
   to_double (333 / 1000) = 5998794703657501 / 18014398509481984"
proof -
  let ?pc = "\<lparr>name = ''Pancakes'',
      ingredients = [''flour'', ''milk'', ''egg'', ''baking powder'', ''salt'', ''butter''],
      matched = 2, total_n = 6, score = 5998794703657501 / 18014398509481984,
      missing = 4\<rparr>"
  have run: "find_matches [''egg'', ''milk''] SAMPLE_RECIPES = Inr
       \<lparr>full_matches = [],
          partial_matches =
            [\<lparr>name = ''French Toast'',
              ingredients = [''bread'', ''egg'', ''milk'', ''butter'', ''cinnamon''],
              matched = 2, total_n = 5, score = 3602879701896397 / 9007199254740992,
              missing = 3\<rparr>, ?pc,
             \<lparr>name = ''Omelette'',
              ingredients = [''egg'', ''salt'', ''pepper'', ''butter'', ''onion''],
              matched = 1, total_n = 5, score = 3602879701896397 / 18014398509481984,
              missing = 4\<rparr>]\<rparr>"
    by code_simp
  have "score_rounded ?pc"
    using entry_invariant [OF run, of ?pc] by simp
  moreover from this have "round_ndigits (to_double (2 / 6)) 3 = 5998794703657501 / 18014398509481984"
    by (simp add: score_rounded_def)
  moreover have "to_double (333 / 1000) = 5998794703657501 / 18014398509481984"
    by code_simp
  ultimately show ?thesis by blast
qed

section \<open>Claims about the presenter and the entry point\<close>

lemma entry_for_score_nonneg: "0 \<le> score (entry_for available r)"
  by (simp add: entry_for_def round_ndigits_nonneg score_of_nonneg)

lemma py_int_fmul_floor: "0 \<le> x \<Longrightarrow> py_int (fmul x 100) = \<lfloor>fmul x 100\<rfloor>"
  by (simp add: py_int_def fmul_def to_double_nonneg)

lemma pretty_print_partial_section:
  assumes "partial_matches res \<noteq> []"
  shows "\<exists>pre. pretty_print res =
           pre @ map print (concat (map partial_lines (partial_matches res)))"
  using assms by (simp add: pretty_print_def)

text \<open>
  What \<open>pretty_print\<close> writes for an entry of \<open>partial_matches\<close>: a line with the name,
  the percentage, \<open>matched/total\<close> and the missing count \<open>total - matched\<close>, and a line
  with the ingredient list of the recipe as it was authored, joined by a comma and a space.
  The percentage is the floor of the float product of the score and 100.
\<close>

lemma partial_lines_rendering:
  assumes "find_matches available recipes = Inr res"
    and "e \<in> set (partial_matches res)"
  shows "partial_lines e =
           [''- '' @ name e @ '': '' @ str_int \<lfloor>fmul (score e) 100\<rfloor> @ ''% (''
              @ str_int (matched e) @ ''/'' @ str_int (total_n e) @ '') -- missing ''
              @ str_int (total_n e - matched e) @ '' ingredient(s)'',
            ''    Ingredients: '' @ join '', '' (ingredients e)] \<and>
         (\<exists>r \<in> set recipes. name e = name r \<and> ingredients e = ingredients r) \<and>
         (\<exists>pre. pretty_print res =
            pre @ map print (concat (map partial_lines (partial_matches res))))"
proof -
  from assms obtain r where r: "r \<in> set recipes" and e: "e = entry_for available r"
    by (auto simp: find_matches_eq)
  have "0 \<le> score e" by (simp add: e entry_for_score_nonneg)
  then have pct: "py_int (fmul (score e) 100) = \<lfloor>fmul (score e) 100\<rfloor>"
    by (rule py_int_fmul_floor)
  have mis: "missing e = total_n e - matched e"
    by (simp add: e entry_for_def)
  have lines: "partial_lines e =
           [''- '' @ name e @ '': '' @ str_int \<lfloor>fmul (score e) 100\<rfloor> @ ''% (''
              @ str_int (matched e) @ ''/'' @ str_int (total_n e) @ '') -- missing ''
              @ str_int (total_n e - matched e) @ '' ingredient(s)'',
            ''    Ingredients: '' @ join '', '' (ingredients e)]"
    unfolding partial_lines_def Let_def pct mis ..
  have orig: "\<exists>r \<in> set recipes. name e = name r \<and> ingredients e = ingredients r"
    using r by (auto simp: e entry_for_def)
  from assms(2) have "partial_matches res \<noteq> []" by auto
  then have "\<exists>pre. pretty_print res =
            pre @ map print (concat (map partial_lines (partial_matches res)))"
    by (rule pretty_print_partial_section)
  with lines orig show ?thesis by blast
qed

lemma partial_lines_rendering_example:
  "find_matches [''bread'', ''butter'']
     [\<lparr>name = ''Toast'', ingredients = [''Bread '', ''BUTTER'', ''jam'']\<rparr>] =
     Inr \<lparr>full_matches = [],
          partial_matches =
            [\<lparr>name = ''Toast'', ingredients = [''Bread '', ''BUTTER'', ''jam''],
              matched = 2, total_n = 3, score = to_double (667 / 1000), missing = 1\<rparr>]\<rparr> \<and>
   partial_lines
     \<lparr>name = ''Toast'', ingredients = [''Bread '', ''BUTTER'', ''jam''],
      matched = 2, total_n = 3, score = to_double (667 / 1000), missing = 1\<rparr> =
     [''- Toast: 66% (2/3) -- missing 1 ingredient(s)'',
      ''    Ingredients: Bread , BUTTER, jam''] \<and>
   \<lfloor>fmul (to_double (667 / 1000)) 100\<rfloor> = 66 \<and>
   \<lfloor>fmul (to_double (29 / 100)) 100\<rfloor> = 28"
proof -
  let ?e = "\<lparr>name = ''Toast'', ingredients = [''Bread '', ''BUTTER'', ''jam''],
      matched = 2, total_n = 3, score = to_double (667 / 1000), missing = 1\<rparr>"
  have run: "find_matches [''bread'', ''butter'']
     [\<lparr>name = ''Toast'', ingredients = [''Bread '', ''BUTTER'', ''jam'']\<rparr>] =
     Inr \<lparr>full_matches = [], partial_matches = [?e]\<rparr>"
    by code_simp
  have "partial_lines ?e =
           [''- '' @ name ?e @ '': '' @ str_int \<lfloor>fmul (score ?e) 100\<rfloor> @ ''% (''
              @ str_int (matched ?e) @ ''/'' @ str_int (total_n ?e) @ '') -- missing ''
              @ str_int (total_n ?e - matched ?e) @ '' ingredient(s)'',
            ''    Ingredients: '' @ join '', '' (ingredients ?e)]"
    using partial_lines_rendering [OF run, of ?e] by simp
  also have "\<dots> = [''- Toast: 66% (2/3) -- missing 1 ingredient(s)'',
      ''    Ingredients: Bread , BUTTER, jam'']"
    by code_simp
  finally have lines: "partial_lines ?e =
     [''- Toast: 66% (2/3) -- missing 1 ingredient(s)'',
      ''    Ingredients: Bread , BUTTER, jam'']" .
  have "\<lfloor>fmul (to_double (667 / 1000)) 100\<rfloor> = 66" by code_simp
  moreover have "\<lfloor>fmul (to_double (29 / 100)) 100\<rfloor> = 28" by code_simp
  ultimately show ?thesis using run lines by blast
qed


lemma main_with_argument:
  assumes "1 < length argv"
  shows "main argv inp =
     (if parse_input (argv ! 1) = []
      then Inr \<lparr>stdout = [print exit_message], matcher_calls = []\<rparr>
      else (case find_matches (parse_input (argv ! 1)) SAMPLE_RECIPES of
              Inl err \<Rightarrow> Inl err
            | Inr result \<Rightarrow>
                Inr \<lparr>stdout = [print (''Available (normalized): ''
                                       @ join '', '' (parse_input (argv ! 1)))]
                                @ pretty_print result,
                     matcher_calls = [(parse_input (argv ! 1), SAMPLE_RECIPES)]\<rparr>))"
  using assms by (simp add: main_def exit_message_def split: sum.splits)

lemma main_without_argument:
  assumes "length argv \<le> 1"
  shows "main argv (Some raw) =
     (if parse_input raw = []
      then Inr \<lparr>stdout = [prompt, print exit_message], matcher_calls = []\<rparr>
      else (case find_matches (parse_input raw) SAMPLE_RECIPES of
              Inl err \<Rightarrow> Inl err
            | Inr result \<Rightarrow>
                Inr \<lparr>stdout = [prompt, print (''Available (normalized): ''
                                       @ join '', '' (parse_input raw))]
                                @ pretty_print result,
                     matcher_calls = [(parse_input raw, SAMPLE_RECIPES)]\<rparr>))"
    and "main argv None = Inl EOFError"
  using assms by (simp_all add: main_def exit_message_def split: sum.splits)

lemma early_exit_with_argument:
  assumes "1 < length argv"
  shows "early_exit (main argv inp) \<longleftrightarrow> parse_input (argv ! 1) = []"
  using assms by (simp add: main_with_argument find_matches_eq early_exit_def)

lemma early_exit_without_argument:
  assumes "length argv \<le> 1"
  shows "early_exit (main argv inp) \<longleftrightarrow> (\<exists>raw. inp = Some raw \<and> parse_input raw = [])"
proof (cases inp)
  case None
  with assms show ?thesis by (simp add: main_without_argument early_exit_def)
next
  case (Some raw)
  with assms show ?thesis by (simp add: main_without_argument find_matches_eq early_exit_def)
qed

text \<open>
  Claim C6, as it is stated, names the absent argument among the cases in which parsing
  yields no ingredient and \<open>main\<close> exits early. That part fails: with the argument absent
  \<open>main\<close> writes the prompt and parses the line it reads. When the line is \<^verbatim>\<open>egg\<close> it
  calls \<open>find_matches\<close> and writes the echo line and both sections; when there is no line
  to read it raises EOFError and writes no exit message.
\<close>

theorem absent_argument_no_early_exit:
  "\<not> early_exit (main [''recipe_finder.py''] (Some ''egg'')) \<and>
   matcher_calls (projr (main [''recipe_finder.py''] (Some ''egg'')))
     = [([''egg''], SAMPLE_RECIPES)] \<and>
   take 2 (stdout (projr (main [''recipe_finder.py''] (Some ''egg''))))
     = [prompt, print ''Available (normalized): egg''] \<and>
   \<not> early_exit (main [''recipe_finder.py''] None) \<and>
   main [''recipe_finder.py''] None = Inl EOFError"
proof -
  have l: "length [''recipe_finder.py''] \<le> 1" by simp
  have p: "parse_input ''egg'' = [''egg'']" by code_simp
  have j: "join '', '' [''egg''] = ''egg''" by simp
  obtain res where res: "find_matches [''egg''] SAMPLE_RECIPES = Inr res"
    by (simp add: find_matches_eq)
  have m: "main [''recipe_finder.py''] (Some ''egg'') =
      Inr \<lparr>stdout = [prompt, print (''Available (normalized): '' @ ''egg'')] @ pretty_print res,
           matcher_calls = [([''egg''], SAMPLE_RECIPES)]\<rparr>"
    using main_without_argument(1) [OF l, of "''egg''"] p res j by simp
  have e: "main [''recipe_finder.py''] None = Inl EOFError"
    using l by (rule main_without_argument(2))
  have 1: "\<not> early_exit (main [''recipe_finder.py''] (Some ''egg''))"
    unfolding m by (simp add: early_exit_def)
  have 2: "matcher_calls (projr (main [''recipe_finder.py''] (Some ''egg'')))
     = [([''egg''], SAMPLE_RECIPES)]"
    unfolding m by simp
  have 3: "take 2 (stdout (projr (main [''recipe_finder.py''] (Some ''egg''))))
     = [prompt, print ''Available (normalized): egg'']"
    unfolding m by simp
  have 4: "\<not> early_exit (main [''recipe_finder.py''] None)"
    unfolding e by (simp add: early_exit_def)
  from 1 2 3 4 e show ?thesis by blast
qed

text \<open>
  Claim C6, amended. Whenever parsing yields no ingredient, \<open>main\<close> writes the exit
  message, returns normally, does not call \<open>find_matches\<close> and writes neither the echo
  line nor a match section. With an argument the exit message is all it writes; this is
  the case for the arguments \<^verbatim>\<open>""\<close> and \<^verbatim>\<open>"  ,  ,"\<close>. With the argument absent \<open>main\<close>
  writes the prompt first and exits early when the line it reads yields no ingredient.
  It exits early in no other case.
\<close>

theorem main_early_exit:
  "(1 < length argv \<longrightarrow> parse_input (argv ! 1) = [] \<longrightarrow>
      main argv inp = Inr \<lparr>stdout = [print exit_message], matcher_calls = []\<rparr>) \<and>
   (length argv \<le> 1 \<longrightarrow> parse_input raw = [] \<longrightarrow>
      main argv (Some raw) = Inr \<lparr>stdout = [prompt, print exit_message], matcher_calls = []\<rparr>) \<and>
   (early_exit (main argv inp) \<longleftrightarrow>
      (1 < length argv \<and> parse_input (argv ! 1) = []) \<or>
      (length argv \<le> 1 \<and> (\<exists>line. inp = Some line \<and> parse_input line = []))) \<and>
   parse_input '''' = [] \<and> parse_input ''  ,  ,'' = []"
proof (intro conjI impI)
  assume "1 < length argv" "parse_input (argv ! 1) = []"
  then show "main argv inp = Inr \<lparr>stdout = [print exit_message], matcher_calls = []\<rparr>"
    by (simp add: main_with_argument)
next
  assume "length argv \<le> 1" "parse_input raw = []"
  then show "main argv (Some raw) =
      Inr \<lparr>stdout = [prompt, print exit_message], matcher_calls = []\<rparr>"
    by (simp add: main_without_argument)
next
  show "early_exit (main argv inp) \<longleftrightarrow>
      (1 < length argv \<and> parse_input (argv ! 1) = []) \<or>
      (length argv \<le> 1 \<and> (\<exists>line. inp = Some line \<and> parse_input line = []))"
  proof (cases "1 < length argv")
    case True
    then show ?thesis by (simp add: early_exit_with_argument)
  next
    case False
    then have "length argv \<le> 1" by simp
    then show ?thesis using False by (simp add: early_exit_without_argument)
  qed
next
  show "parse_input '''' = []" by code_simp
next
  show "parse_input ''  ,  ,'' = []" by code_simp
qed

theorem main_early_exit_witness:
  "main [''recipe_finder.py'', ''  ,  ,''] None =
     Inr \<lparr>stdout = [print exit_message], matcher_calls = []\<rparr> \<and>
   main [''recipe_finder.py'', ''''] None =
     Inr \<lparr>stdout = [print exit_message], matcher_calls = []\<rparr> \<and>
   main [''recipe_finder.py''] (Some '''') =
     Inr \<lparr>stdout = [prompt, print exit_message], matcher_calls = []\<rparr> \<and>
   early_exit (main [''recipe_finder.py'', ''  ,  ,''] None) \<and>
   \<not> early_exit (main [''recipe_finder.py''] (Some ''egg'')) \<and>
   \<not> early_exit (main [''recipe_finder.py''] None) \<and>
   main [''recipe_finder.py''] None = Inl EOFError"
proof -
  have p1: "parse_input ''  ,  ,'' = []" and p2: "parse_input '''' = []"
    and p3: "parse_input ''egg'' \<noteq> []"
    by code_simp+
  have l2: "1 < length [''recipe_finder.py'', ''  ,  ,'']"
    and l2': "1 < length [''recipe_finder.py'', '''']"
    and l1: "length [''recipe_finder.py''] \<le> 1"
    and n1: "\<not> 1 < length [''recipe_finder.py'']"
    by simp_all
  have a2: "[''recipe_finder.py'', ''  ,  ,''] ! 1 = ''  ,  ,''"
    and a2': "[''recipe_finder.py'', ''''] ! 1 = ''''"
    by simp_all
  have a: "main [''recipe_finder.py'', ''  ,  ,''] None =
     Inr \<lparr>stdout = [print exit_message], matcher_calls = []\<rparr>"
    using main_early_exit [of "[''recipe_finder.py'', ''  ,  ,'']" None] l2 p1
    unfolding a2 by blast
  have b: "main [''recipe_finder.py'', ''''] None =
     Inr \<lparr>stdout = [print exit_message], matcher_calls = []\<rparr>"
    using main_early_exit [of "[''recipe_finder.py'', '''']" None] l2' p2
    unfolding a2' by blast
  have c: "main [''recipe_finder.py''] (Some '''') =
     Inr \<lparr>stdout = [prompt, print exit_message], matcher_calls = []\<rparr>"
    using main_early_exit [of "[''recipe_finder.py'']" None "''''"] l1 p2 by blast
  have d: "early_exit (main [''recipe_finder.py'', ''  ,  ,''] None)"
    using main_early_exit [of "[''recipe_finder.py'', ''  ,  ,'']" None] l2 p1
    unfolding a2 by blast
  have e: "\<not> early_exit (main [''recipe_finder.py''] (Some ''egg''))"
    using main_early_exit [of "[''recipe_finder.py'']" "Some ''egg''"] n1 p3 by blast
  have f: "\<not> early_exit (main [''recipe_finder.py''] None)"
    using main_early_exit [of "[''recipe_finder.py'']" None] n1 by blast
  have g: "main [''recipe_finder.py''] None = Inl EOFError"
    by (simp add: main_def)
  from a b c d e f g show ?thesis by blast
qed

end
